theory Spec2Isabelle
  imports Complex_Main "HOL-Library.Word"
begin

section \<open>The Prometheus sink of the event exporter\<close>

text \<open>
  A shallow embedding of \<^verbatim>\<open>pkg/sinks/prometheus.go\<close>. Go strings are byte sequences and are
  modelled as \<^typ>\<open>string\<close>; Go maps are partial functions; the gauge vectors, which the
  sink only reaches through the interface \<^verbatim>\<open>PrometheusGaugeVec\<close>, are a type parameter
  together with a record of the interface's methods. Calls to the logger have no effect on
  any value of the program and are left out.
\<close>

subsection \<open>Bytes and runes\<close>

definition byte :: "char \<Rightarrow> nat" where
  "byte c = of_char c"

definition isLowerOrDigit :: "char \<Rightarrow> bool" where
  \<comment> \<open>the class \<^verbatim>\<open>[a-z0-9]\<close>\<close>
  "isLowerOrDigit c = ((0x61 \<le> byte c \<and> byte c \<le> 0x7A) \<or> (0x30 \<le> byte c \<and> byte c \<le> 0x39))"

definition isUpper :: "char \<Rightarrow> bool" where
  \<comment> \<open>the class \<^verbatim>\<open>[A-Z]\<close>\<close>
  "isUpper c = (0x41 \<le> byte c \<and> byte c \<le> 0x5A)"

definition isLabelChar :: "char \<Rightarrow> bool" where
  \<comment> \<open>the class \<^verbatim>\<open>[a-zA-Z0-9_]\<close>, the complement of \<^verbatim>\<open>invalidCharsRegex\<close>\<close>
  "isLabelChar c = (isLowerOrDigit c \<or> isUpper c \<or> byte c = 0x5F)"

definition inRange :: "nat \<Rightarrow> nat \<Rightarrow> char \<Rightarrow> bool" where
  "inRange lo hi c = (lo \<le> byte c \<and> byte c \<le> hi)"

text \<open>
  The regular expression engine reads its input rune by rune with
  \<^verbatim>\<open>utf8.DecodeRuneInString\<close>. \<open>decodeSize\<close> is the number of bytes that call consumes at
  the head of a string: the length of a well-formed UTF-8 sequence, and one byte where the
  bytes are not well-formed (the rune is then U+FFFD).
\<close>

fun decodeSize :: "string \<Rightarrow> nat" where
  "decodeSize [] = 0"
| "decodeSize (c0 # s) =
     (if byte c0 < 0x80 then 1
      else if byte c0 < 0xC2 \<or> 0xF4 < byte c0 then 1
      else
        (let sz = (if byte c0 < 0xE0 then 2 else if byte c0 < 0xF0 then 3 else (4::nat));
             lo = (if byte c0 = 0xE0 then 0xA0 else if byte c0 = 0xF0 then 0x90 else 0x80);
             hi = (if byte c0 = 0xED then 0x9F else if byte c0 = 0xF4 then 0x8F else 0xBF)
         in if length (c0 # s) < sz then 1
            else if \<not> inRange lo hi (s ! 0) then 1
            else if sz \<le> 2 then 2
            else if \<not> inRange 0x80 0xBF (s ! 1) then 1
            else if sz \<le> 3 then 3
            else if \<not> inRange 0x80 0xBF (s ! 2) then 1
            else 4))"

declare decodeSize.simps [simp del]

subsection \<open>The two regular expressions and their replacements\<close>

text \<open>
  \<^verbatim>\<open>invalidCharsRegex.ReplaceAllString(label, "_")\<close>: every rune outside
  \<^verbatim>\<open>[a-zA-Z0-9_]\<close> is one match and becomes one underscore. A rune of several bytes, and each
  byte that is not well-formed UTF-8, is outside the class.
\<close>

function invalidCharsReplace :: "string \<Rightarrow> string" where
  "invalidCharsReplace [] = []"
| "invalidCharsReplace (c # s) =
     (if isLabelChar c then c # invalidCharsReplace s
      else CHR ''_'' # invalidCharsReplace (drop (decodeSize (c # s) - 1) s))"
  by pat_completeness auto
termination
  by (relation "measure length") simp_all

text \<open>
  \<^verbatim>\<open>Regexp.expand\<close> on a template, for the submatches \<open>groups\<close> (group 0 first). A variable is
  \<^verbatim>\<open>$name\<close> or \<^verbatim>\<open>${name}\<close>, the name a longest non-empty run of letters, digits and
  underscores; \<^verbatim>\<open>$$\<close> is a dollar sign; a dollar sign that starts no variable is copied. A
  name made of digits (without a leading zero) selects the submatch of that index, and any
  other name selects a named group, of which the expressions of this file have none.
\<close>

definition isNameChar :: "char \<Rightarrow> bool" where
  "isNameChar c = isLabelChar c"

fun parseNum :: "string \<Rightarrow> nat \<Rightarrow> nat option" where
  "parseNum [] n = Some n"
| "parseNum (c # cs) n =
     (if byte c < 0x30 \<or> 0x39 < byte c \<or> n \<ge> 100000000 then None
      else parseNum cs (n * 10 + (byte c - 0x30)))"

definition groupNumber :: "string \<Rightarrow> nat option" where
  "groupNumber name =
     (if length name > 1 \<and> hd name = CHR ''0'' then None else parseNum name 0)"

definition extractVar :: "string \<Rightarrow> (string \<times> nat option \<times> string) option" where
  "extractVar str =
     (if str = [] then None
      else
        (let brace = (hd str = CHR ''{'');
             str1 = (if brace then tl str else str);
             name = takeWhile isNameChar str1;
             i = length name
         in if i = 0 then None
            else if brace \<and> (i \<ge> length str1 \<or> str1 ! i \<noteq> CHR ''}'') then None
            else Some (name, groupNumber name, drop (if brace then i + 1 else i) str1)))"

function expand :: "string \<Rightarrow> string list \<Rightarrow> string" where
  "expand [] groups = []"
| "expand (c # template) groups =
     (if c \<noteq> CHR ''$'' then c # expand template groups
      else if template \<noteq> [] \<and> hd template = CHR ''$'' then CHR ''$'' # expand (tl template) groups
      else
        (case extractVar template of
           None \<Rightarrow> CHR ''$'' # expand template groups
         | Some (name, num, rest) \<Rightarrow>
             (case num of
                Some n \<Rightarrow> (if n < length groups then groups ! n else []) @ expand rest groups
              | None \<Rightarrow> expand rest groups)))"
  by pat_completeness auto
termination
  by (relation "measure (\<lambda>(t, g). length t)")
    (auto simp: extractVar_def Let_def split: if_splits)

definition camelCaseTemplate :: string where
  "camelCaseTemplate = ''${1}_{2}''"

text \<open>
  \<^verbatim>\<open>camelCaseRegex.ReplaceAllString(label, "${1}_{2}")\<close>: the matches of
  \<^verbatim>\<open>([a-z0-9])([A-Z])\<close> are two bytes long and are found from the left without overlap; each
  is replaced by the expansion of the template, the text between matches is copied.
\<close>

fun camelCaseReplace :: "string \<Rightarrow> string" where
  "camelCaseReplace (a # b # s) =
     (if isLowerOrDigit a \<and> isUpper b
      then expand camelCaseTemplate [a # [b], [a], [b]] @ camelCaseReplace s
      else a # camelCaseReplace (b # s))"
| "camelCaseReplace s = s"

text \<open>
  \<^verbatim>\<open>strings.ToLower\<close>. On a string of ASCII bytes Go maps \<^verbatim>\<open>A\<close> to \<^verbatim>\<open>Z\<close> to lower case byte by
  byte: this is \<open>ToLower\<close>, and it is all the sanitizer needs, which applies the function to
  ASCII bytes only. On any other string Go returns \<^verbatim>\<open>strings.Map(unicode.ToLower, s)\<close>, which
  folds the letters beyond ASCII by the Unicode tables and rewrites bytes that are not
  well-formed UTF-8. The tables belong to the standard library; that branch is the
  parameter \<open>unicodeLower\<close> of \<open>strings_ToLower\<close>, the function on arbitrary strings.
\<close>

definition toLowerByte :: "char \<Rightarrow> char" where
  "toLowerByte c = (if isUpper c then char_of (byte c + 0x20) else c)"

definition ToLower :: "string \<Rightarrow> string" where
  "ToLower s = map toLowerByte s"

definition strings_ToLower :: "(string \<Rightarrow> string) \<Rightarrow> string \<Rightarrow> string" where
  "strings_ToLower unicodeLower s =
     (if list_all (\<lambda>c. byte c < 0x80) s then ToLower s else unicodeLower s)"

subsection \<open>Label names\<close>

definition defaultMetricLabels :: "string list" where
  "defaultMetricLabels = [''name'', ''namespace'', ''reason'']"

definition sanitizeLabelName :: "string \<Rightarrow> string" where
  "sanitizeLabelName label = ToLower (camelCaseReplace (invalidCharsReplace label))"

definition getMetricLabelName :: "string \<Rightarrow> string" where
  "getMetricLabelName label =
     (if label \<in> set defaultMetricLabels then label
      else ''label_'' @ sanitizeLabelName label)"

fun getMetricLabelNames :: "string list \<Rightarrow> string list" where
  "getMetricLabelNames [] = []"
| "getMetricLabelNames (label # labels) = getMetricLabelName label # getMetricLabelNames labels"

subsection \<open>Events, configuration and gauge vectors\<close>

text \<open>
  Modelled from the spec: the types \<^verbatim>\<open>kube.EnhancedObjectReference\<close> and
  \<^verbatim>\<open>kube.EnhancedEvent\<close>, which are declared in a package that is not among the sources.
  An event is an involved object, a reason and a count, an \<^verbatim>\<open>int32\<close>; an object has a kind, a
  name, a namespace and a mapping from label keys to label values. These are the fields the
  sink reads and \<^verbatim>\<open>mockEvent\<close> of the test file sets.

  Indexing a Go map at a missing key gives the zero value of the element type:
  \<open>indexString\<close> for a map of strings, \<open>indexSlice\<close> for a map of slices (a nil slice, over
  which a loop does not iterate).
\<close>

type_synonym prometheus_Labels = "string \<rightharpoonup> string"

record EnhancedObjectReference =
  Kind :: string
  Name :: string
  Namespace :: string
  Labels :: "string \<rightharpoonup> string"

record EnhancedEvent =
  Reason :: string
  Count :: "32 word"
  InvolvedObject :: EnhancedObjectReference

record PrometheusConfig =
  EventsMetricsNamePrefix :: string
  ReasonFilter :: "string \<rightharpoonup> string list"
  LabelFilter :: "string \<rightharpoonup> string list"

definition indexString :: "(string \<rightharpoonup> string) \<Rightarrow> string \<Rightarrow> string" where
  "indexString m k = (case m k of None \<Rightarrow> [] | Some v \<Rightarrow> v)"

definition indexSlice :: "(string \<rightharpoonup> string list) \<Rightarrow> string \<Rightarrow> string list" where
  "indexSlice m k = (case m k of None \<Rightarrow> [] | Some v \<Rightarrow> v)"

text \<open>
  The interface \<^verbatim>\<open>PrometheusGaugeVec\<close> over an implementation state \<open>'g\<close>. The sink only
  ever calls \<^verbatim>\<open>With(labels).Set(value)\<close>, which is the one method \<open>With_Set\<close>;
  \<^verbatim>\<open>Delete\<close> returns a boolean next to the new state.
\<close>

record 'g PrometheusGaugeVec =
  With_Set :: "prometheus_Labels \<Rightarrow> real \<Rightarrow> 'g \<Rightarrow> 'g"
  Delete :: "prometheus_Labels \<Rightarrow> 'g \<Rightarrow> bool \<times> 'g"

record 'g PrometheusSink =
  cfg :: PrometheusConfig
  kinds :: "string list"
  metricsByKind :: "string \<rightharpoonup> 'g"
  metricLabelsByKind :: "string \<rightharpoonup> string list"

text \<open>
  Modelled from the spec: the gauge vector of the Prometheus client library, which is not
  part of this repository. It is a mapping from a label set to a numeric value with the
  two operations \<open>set(labels, value)\<close> (create or update) and \<open>delete(labels)\<close> (remove if
  present, otherwise nothing happens). The name, the help text and the label names it was
  created with are kept beside the series.
\<close>

record GaugeOpts =
  opts_Name :: string
  opts_Help :: string

record GaugeVec =
  gv_opts :: GaugeOpts
  gv_labelNames :: "string list"
  series :: "prometheus_Labels \<rightharpoonup> real"

definition NewGaugeVec :: "GaugeOpts \<Rightarrow> string list \<Rightarrow> GaugeVec" where
  "NewGaugeVec opts labelNames =
     \<lparr>gv_opts = opts, gv_labelNames = labelNames, series = Map.empty\<rparr>"

definition GaugeVec_With_Set :: "prometheus_Labels \<Rightarrow> real \<Rightarrow> GaugeVec \<Rightarrow> GaugeVec" where
  "GaugeVec_With_Set labels v g = g\<lparr>series := (series g)(labels \<mapsto> v)\<rparr>"

definition GaugeVec_Delete :: "prometheus_Labels \<Rightarrow> GaugeVec \<Rightarrow> bool \<times> GaugeVec" where
  "GaugeVec_Delete labels g =
     (series g labels \<noteq> None, g\<lparr>series := (series g)(labels := None)\<rparr>)"

definition gaugeVecImpl :: "GaugeVec PrometheusGaugeVec" where
  "gaugeVecImpl = \<lparr>With_Set = GaugeVec_With_Set, Delete = GaugeVec_Delete\<rparr>"

text \<open>
  The mock of the test file: it records every call made through the interface, and its
  \<^verbatim>\<open>Delete\<close> answers \<^verbatim>\<open>true\<close>.
\<close>

datatype mockCall =
  Call_With_Set prometheus_Labels real
| Call_Delete prometheus_Labels

definition mockGaugeVec :: "mockCall list PrometheusGaugeVec" where
  "mockGaugeVec =
     \<lparr>With_Set = (\<lambda>labels v calls. calls @ [Call_With_Set labels v]),
      Delete = (\<lambda>labels calls. (True, calls @ [Call_Delete labels]))\<rparr>"

subsection \<open>Building label sets and driving the gauge vector\<close>

fun getMetricLabels_loop ::
  "string list \<Rightarrow> EnhancedObjectReference \<Rightarrow> prometheus_Labels \<Rightarrow> prometheus_Labels" where
  "getMetricLabels_loop [] obj prometheusLabels = prometheusLabels"
| "getMetricLabels_loop (label # metricLabels) obj prometheusLabels =
     getMetricLabels_loop metricLabels obj
       (if label \<notin> set defaultMetricLabels
        then prometheusLabels(getMetricLabelName label \<mapsto> indexString (Labels obj) label)
        else prometheusLabels)"

definition getMetricLabels ::
  "string list \<Rightarrow> EnhancedObjectReference \<Rightarrow> string \<Rightarrow> prometheus_Labels" where
  "getMetricLabels metricLabels obj reason =
     getMetricLabels_loop metricLabels obj
       [''name'' \<mapsto> Name obj, ''namespace'' \<mapsto> Namespace obj, ''reason'' \<mapsto> reason]"

definition float64 :: "32 word \<Rightarrow> real" where
  \<comment> \<open>the conversion of an \<^verbatim>\<open>int32\<close>, which is exact\<close>
  "float64 n = real_of_int (sint n)"

definition SetEventCount ::
  "'g PrometheusGaugeVec \<Rightarrow> 'g \<Rightarrow> string list \<Rightarrow> EnhancedObjectReference \<Rightarrow> string \<Rightarrow> 32 word \<Rightarrow> 'g" where
  "SetEventCount I metric metricLabels obj reason count =
     With_Set I (getMetricLabels metricLabels obj reason) (float64 count) metric"

definition DeleteEventCount ::
  "'g PrometheusGaugeVec \<Rightarrow> 'g \<Rightarrow> string list \<Rightarrow> EnhancedObjectReference \<Rightarrow> string \<Rightarrow> 'g" where
  "DeleteEventCount I metric metricLabels obj reason =
     snd (Delete I (getMetricLabels metricLabels obj reason) metric)"

subsection \<open>The sink\<close>

datatype panic = RegistrationPanic | NilDereference

datatype error = Error string

text \<open>
  The body of the loop of \<^verbatim>\<open>Send\<close> over the configured reasons of the event's kind, on
  the gauge vector of that kind.
\<close>

fun Send_loop ::
  "'g PrometheusGaugeVec \<Rightarrow> string list \<Rightarrow> EnhancedEvent \<Rightarrow> string list \<Rightarrow> 'g \<Rightarrow> 'g" where
  "Send_loop I metricLabels ev [] metric = metric"
| "Send_loop I metricLabels ev (reason # reasons) metric =
     Send_loop I metricLabels ev reasons
       (if Reason ev = reason
        then SetEventCount I metric metricLabels (InvolvedObject ev) reason (Count ev)
        else DeleteEventCount I metric metricLabels (InvolvedObject ev) reason)"

text \<open>
  \<^verbatim>\<open>Send\<close> returns the error value (always \<^verbatim>\<open>nil\<close>, here \<open>None\<close>) and the sink with the gauge
  vector of the event's kind updated. The gauge vectors are held in a map; a kind listed in
  \<open>kinds\<close> without an entry there gives a nil interface value, and the first method call
  on it panics.
\<close>

definition Send ::
  "'g PrometheusGaugeVec \<Rightarrow> 'g PrometheusSink \<Rightarrow> EnhancedEvent \<Rightarrow> panic + (error option \<times> 'g PrometheusSink)" where
  "Send I o_sink ev =
     (let kind = Kind (InvolvedObject ev) in
      if kind \<in> set (kinds o_sink) then
        (let reasons = indexSlice (ReasonFilter (cfg o_sink)) kind;
             metricLabels = indexSlice (metricLabelsByKind o_sink) kind
         in case metricsByKind o_sink kind of
              None \<Rightarrow> (if reasons = [] then Inr (None, o_sink) else Inl NilDereference)
            | Some metric \<Rightarrow>
                Inr (None, o_sink\<lparr>metricsByKind :=
                       (metricsByKind o_sink)(kind \<mapsto> Send_loop I metricLabels ev reasons metric)\<rparr>))
      else Inr (None, o_sink))"

text \<open>
  \<^verbatim>\<open>newGaugeVec\<close> creates a gauge vector and registers it with the process-wide registry.
  \<^verbatim>\<open>prometheus.MustRegister\<close> belongs to the client library: it is the parameter
  \<open>mustRegister\<close>, a function on the state \<open>'r\<close> of the registry that gives \<open>None\<close> where the
  library panics.
\<close>

definition newGaugeVec ::
  "('r \<Rightarrow> GaugeVec \<Rightarrow> 'r option) \<Rightarrow> 'r \<Rightarrow> GaugeOpts \<Rightarrow> string list \<Rightarrow> panic + (GaugeVec \<times> 'r)" where
  "newGaugeVec mustRegister registry opts labelNames =
     (let v = NewGaugeVec opts labelNames in
      case mustRegister registry v of
        None \<Rightarrow> Inl RegistrationPanic
      | Some registry' \<Rightarrow> Inr (v, registry'))"

fun appendLabels :: "string list \<Rightarrow> string list \<Rightarrow> string list" where
  "appendLabels labels [] = labels"
| "appendLabels labels (label # rest) =
     appendLabels (if label \<notin> set defaultMetricLabels then labels @ [label] else labels) rest"

definition kindLabels :: "PrometheusConfig \<Rightarrow> string \<Rightarrow> string list" where
  \<comment> \<open>lines 57 to 64: the label keys of one kind\<close>
  "kindLabels config kind =
     (case LabelFilter config kind of
        None \<Rightarrow> defaultMetricLabels
      | Some extra \<Rightarrow> appendLabels defaultMetricLabels extra)"

definition metricName :: "(string \<Rightarrow> string) \<Rightarrow> PrometheusConfig \<Rightarrow> string \<Rightarrow> string" where
  "metricName unicodeLower config kind =
     EventsMetricsNamePrefix config @ strings_ToLower unicodeLower kind @ ''_event_count''"

text \<open>
  The loop of \<^verbatim>\<open>NewPrometheusSink\<close> over the keys of \<^verbatim>\<open>config.ReasonFilter\<close>. Go leaves the
  order of a map's keys open, so the order is the argument \<open>order\<close>. The state of the loop
  is the sink under construction and the registry.
\<close>

fun NewPrometheusSink_loop ::
  "(string \<Rightarrow> string) \<Rightarrow> ('r \<Rightarrow> GaugeVec \<Rightarrow> 'r option) \<Rightarrow> PrometheusConfig \<Rightarrow> string list \<Rightarrow>
   GaugeVec PrometheusSink \<Rightarrow> 'r \<Rightarrow> panic + (GaugeVec PrometheusSink \<times> 'r)" where
  "NewPrometheusSink_loop unicodeLower mustRegister config [] sink registry = Inr (sink, registry)"
| "NewPrometheusSink_loop unicodeLower mustRegister config (kind # rest) sink registry =
     (let labels = kindLabels config kind in
      case newGaugeVec mustRegister registry
             \<lparr>opts_Name = metricName unicodeLower config kind,
              opts_Help = ''Event counts for '' @ kind @ '' resources.''\<rparr>
             (getMetricLabelNames labels) of
        Inl p \<Rightarrow> Inl p
      | Inr (v, registry') \<Rightarrow>
          NewPrometheusSink_loop unicodeLower mustRegister config rest
            (sink\<lparr>kinds := kinds sink @ [kind],
                  metricsByKind := (metricsByKind sink)(kind \<mapsto> v),
                  metricLabelsByKind := (metricLabelsByKind sink)(kind \<mapsto> labels)\<rparr>)
            registry')"

text \<open>
  \<^verbatim>\<open>NewPrometheusSink\<close> receives a pointer to the configuration and writes through it. Its
  first two arguments here are the two parts of the libraries it reaches, \<open>unicodeLower\<close>
  for the name of the metric and \<open>mustRegister\<close>, then the order of the kinds. The
  first component of the result is the caller's configuration after the call, the second
  is the panic or the returned sink with its error value (always \<^verbatim>\<open>nil\<close>) and the registry.
\<close>

definition defaultPrefix :: "PrometheusConfig \<Rightarrow> PrometheusConfig" where
  \<comment> \<open>lines 46 to 48\<close>
  "defaultPrefix config =
     (if EventsMetricsNamePrefix config = []
      then config\<lparr>EventsMetricsNamePrefix := ''event_exporter_''\<rparr>
      else config)"

definition NewPrometheusSink ::
  "(string \<Rightarrow> string) \<Rightarrow> ('r \<Rightarrow> GaugeVec \<Rightarrow> 'r option) \<Rightarrow> string list \<Rightarrow> 'r \<Rightarrow> PrometheusConfig \<Rightarrow>
   PrometheusConfig \<times> (panic + ((GaugeVec PrometheusSink \<times> error option) \<times> 'r))" where
  "NewPrometheusSink unicodeLower mustRegister order registry config =
     (let config' = defaultPrefix config in
      (config',
       case NewPrometheusSink_loop unicodeLower mustRegister config' order
              \<lparr>cfg = config', kinds = [], metricsByKind = Map.empty,
               metricLabelsByKind = Map.empty\<rparr> registry of
         Inl p \<Rightarrow> Inl p
       | Inr (sink, registry') \<Rightarrow> Inr ((sink, None), registry')))"

subsection \<open>Sequences of events, well-formed sinks and example data\<close>

text \<open>
  The events of a stream are sent one after the other; a panic ends the run.
\<close>

fun SendAll ::
  "'g PrometheusGaugeVec \<Rightarrow> 'g PrometheusSink \<Rightarrow> EnhancedEvent list \<Rightarrow> panic + 'g PrometheusSink" where
  "SendAll I o_sink [] = Inr o_sink"
| "SendAll I o_sink (ev # evs) =
     (case Send I o_sink ev of
        Inl p \<Rightarrow> Inl p
      | Inr (err, o_sink') \<Rightarrow> SendAll I o_sink' evs)"

text \<open>
  Every kind a sink lists has a gauge vector. \<^verbatim>\<open>NewPrometheusSink\<close> builds its sinks so,
  and so does the test file.
\<close>

definition sinkInvariant :: "'g PrometheusSink \<Rightarrow> bool" where
  "sinkInvariant o_sink = (\<forall>kind \<in> set (kinds o_sink). metricsByKind o_sink kind \<noteq> None)"

text \<open>
  An event as \<^verbatim>\<open>mockEvent\<close> of the test file builds it, the event the tests send, a sink
  for the kind \<^verbatim>\<open>Pod\<close> with two reasons and one extra label, and a registry that refuses a
  metric name it already holds.
\<close>

definition mockEvent ::
  "string \<Rightarrow> string \<Rightarrow> string \<Rightarrow> (string \<rightharpoonup> string) \<Rightarrow> string \<Rightarrow> 32 word \<Rightarrow> EnhancedEvent" where
  "mockEvent kind name namespace labels reason count =
     \<lparr>Reason = reason, Count = count,
      InvolvedObject = \<lparr>Kind = kind, Name = name, Namespace = namespace, Labels = labels\<rparr>\<rparr>"

definition testEvent :: EnhancedEvent where
  "testEvent =
     mockEvent ''Pod'' ''testpod'' ''testnamespace'' [''test_label'' \<mapsto> ''test_label_value'']
       ''Starting'' 1"

definition exampleConfig :: PrometheusConfig where
  "exampleConfig =
     \<lparr>EventsMetricsNamePrefix = [],
      ReasonFilter = [''Pod'' \<mapsto> [''Starting'', ''Creating'']],
      LabelFilter = [''Pod'' \<mapsto> [''test_label'', ''name'']]\<rparr>"

definition exampleSink :: "'g \<Rightarrow> 'g PrometheusSink" where
  "exampleSink metric =
     \<lparr>cfg = exampleConfig, kinds = [''Pod''], metricsByKind = [''Pod'' \<mapsto> metric],
      metricLabelsByKind = [''Pod'' \<mapsto> defaultMetricLabels @ [''test_label'']]\<rparr>"

definition exampleGaugeVec :: GaugeVec where
  \<comment> \<open>the gauge vector of the kind after an earlier event with the reason \<^verbatim>\<open>Creating\<close>\<close>
  "exampleGaugeVec =
     \<lparr>gv_opts = \<lparr>opts_Name = ''event_exporter_pod_event_count'',
                  opts_Help = ''Event counts for Pod resources.''\<rparr>,
      gv_labelNames = [''name'', ''namespace'', ''reason'', ''label_test_label''],
      series = [getMetricLabels (defaultMetricLabels @ [''test_label''])
                  (InvolvedObject testEvent) ''Creating'' \<mapsto> 3]\<rparr>"

definition registerByName :: "string list \<Rightarrow> GaugeVec \<Rightarrow> string list option" where
  "registerByName registry v =
     (if opts_Name (gv_opts v) \<in> set registry then None
      else Some (opts_Name (gv_opts v) # registry))"

section \<open>The sanitizer\<close>

lemmas char_defs = byte_def isLowerOrDigit_def isUpper_def isLabelChar_def isNameChar_def

text \<open>
  The template of the source is \<^verbatim>\<open>${1}_{2}\<close>: the first group, and then the four bytes
  \<^verbatim>\<open>_{2}\<close> as they stand, since no dollar sign precedes the second brace. The upper-case
  letter of the match is not written back.
\<close>

lemma camelCase_expansion: "expand camelCaseTemplate [a # [b], [a], [b]] = a # ''_{2}''"
  by (simp add: camelCaseTemplate_def extractVar_def groupNumber_def char_defs)

lemma isLabelChar_ascii: "isLabelChar c \<Longrightarrow> byte c < 0x80"
  by (auto simp: isLabelChar_def isLowerOrDigit_def isUpper_def)

lemma invalidCharsReplace_chars: "c \<in> set (invalidCharsReplace s) \<Longrightarrow> isLabelChar c"
  by (induction s rule: invalidCharsReplace.induct) (auto simp: char_defs split: if_splits)

lemma invalidCharsReplace_length:
  "\<forall>c \<in> set s. byte c < 0x80 \<Longrightarrow> length (invalidCharsReplace s) = length s"
  by (induction s rule: invalidCharsReplace.induct) (auto simp: decodeSize.simps)

lemma camelCaseReplace_length: "length s \<le> length (camelCaseReplace s)"
  by (induction s rule: camelCaseReplace.induct) (auto simp: camelCase_expansion)

lemma camelCaseReplace_chars:
  "c \<in> set (camelCaseReplace s) \<Longrightarrow> c \<in> set s \<or> c \<in> set ''_{2}''"
  by (induction s rule: camelCaseReplace.induct) (auto simp: camelCase_expansion split: if_splits)

lemma toLowerByte_ascii: "byte c < 0x80 \<Longrightarrow> byte (toLowerByte c) < 0x80"
  by (auto simp: toLowerByte_def isUpper_def byte_def)

text \<open>
  The argument of \<open>ToLower\<close> in the sanitizer holds ASCII bytes only, so the byte-wise
  mapping is what \<^verbatim>\<open>strings.ToLower\<close> does there, whatever the Unicode tables are; the result
  is ASCII as well.
\<close>

lemma camelCaseReplace_invalidCharsReplace_ascii:
  assumes "d \<in> set (camelCaseReplace (invalidCharsReplace k))"
  shows "byte d < 0x80"
  using camelCaseReplace_chars [OF assms]
proof
  assume "d \<in> set (invalidCharsReplace k)"
  then show ?thesis by (blast dest: invalidCharsReplace_chars isLabelChar_ascii)
next
  assume "d \<in> set ''_{2}''"
  then show ?thesis by (auto simp: byte_def)
qed

lemma strings_ToLower_sanitizer:
  "strings_ToLower unicodeLower (camelCaseReplace (invalidCharsReplace label))
     = sanitizeLabelName label"
proof -
  have "list_all (\<lambda>c. byte c < 0x80) (camelCaseReplace (invalidCharsReplace label))"
    unfolding list_all_iff by (blast intro: camelCaseReplace_invalidCharsReplace_ascii)
  then show ?thesis by (simp add: strings_ToLower_def sanitizeLabelName_def)
qed

lemma sanitizeLabelName_ascii:
  assumes "c \<in> set (sanitizeLabelName k)"
  shows "byte c < 0x80"
proof -
  from assms obtain d
    where d: "d \<in> set (camelCaseReplace (invalidCharsReplace k))" and c: "c = toLowerByte d"
    by (auto simp: sanitizeLabelName_def ToLower_def)
  from camelCaseReplace_chars [OF d] have "byte d < 0x80"
  proof
    assume "d \<in> set (invalidCharsReplace k)"
    then show ?thesis by (blast dest: invalidCharsReplace_chars isLabelChar_ascii)
  next
    assume "d \<in> set ''_{2}''"
    then show ?thesis by (auto simp: byte_def)
  qed
  with c show ?thesis by (simp add: toLowerByte_ascii)
qed

lemma sanitizeLabelName_length:
  "\<forall>c \<in> set k. byte c < 0x80 \<Longrightarrow> length k \<le> length (sanitizeLabelName k)"
  using camelCaseReplace_length [of "invalidCharsReplace k"]
  by (simp add: sanitizeLabelName_def ToLower_def invalidCharsReplace_length)

lemma prefixed_neq: "''label_'' @ sanitizeLabelName k \<noteq> k"
proof
  assume eq: "''label_'' @ sanitizeLabelName k = k"
  have "\<forall>c \<in> set (''label_'' @ sanitizeLabelName k). byte c < 0x80"
  proof
    fix c assume "c \<in> set (''label_'' @ sanitizeLabelName k)"
    then have "c \<in> set ''label_'' \<or> c \<in> set (sanitizeLabelName k)" by simp
    then show "byte c < 0x80"
    proof
      assume "c \<in> set ''label_''"
      then show ?thesis by (auto simp: byte_def)
    next
      assume "c \<in> set (sanitizeLabelName k)"
      then show ?thesis by (rule sanitizeLabelName_ascii)
    qed
  qed
  with eq have "\<forall>c \<in> set k. byte c < 0x80" by simp
  then have "length k \<le> length (sanitizeLabelName k)" by (rule sanitizeLabelName_length)
  moreover have "length (''label_'' @ sanitizeLabelName k) = 6 + length (sanitizeLabelName k)"
    by simp
  with eq have "length k = 6 + length (sanitizeLabelName k)" by simp
  ultimately show False by simp
qed

lemma sanitizeLabelName_a_b_c: "sanitizeLabelName ''a.b-c'' = ''a_b_c''"
  by (simp add: sanitizeLabelName_def ToLower_def toLowerByte_def camelCase_expansion
      char_defs decodeSize.simps)

text \<open>
  Claim C2. The sanitizer is meant to give a string over \<^verbatim>\<open>[a-z0-9_]\<close>, with
  \<^verbatim>\<open>fooBar\<close> sent to \<^verbatim>\<open>foo_bar\<close>. On \<^verbatim>\<open>fooBar\<close> the code gives \<^verbatim>\<open>foo_{2}ar\<close>: the braces
  and the digit of the template are in the result and the letter \<^verbatim>\<open>B\<close> is lost.
\<close>

theorem sanitizeLabelName_fooBar: "sanitizeLabelName ''fooBar'' = ''foo_{2}ar''"
  by (simp add: sanitizeLabelName_def ToLower_def toLowerByte_def camelCase_expansion char_defs)

text \<open>
  Claim C4. The sanitizer is meant to be idempotent. On \<^verbatim>\<open>fooBar\<close> a second application
  turns the braces of \<^verbatim>\<open>foo_{2}ar\<close> into underscores, so the results of one and of two
  applications differ.
\<close>

theorem sanitizeLabelName_twice_fooBar:
  "sanitizeLabelName (sanitizeLabelName ''fooBar'') = ''foo__2_ar'' \<and>
   sanitizeLabelName (sanitizeLabelName ''fooBar'') \<noteq> sanitizeLabelName ''fooBar''"
  by (simp add: sanitizeLabelName_def ToLower_def toLowerByte_def camelCase_expansion
      char_defs decodeSize.simps)

section \<open>Metric label names\<close>

text \<open>
  Claim C5. The keys \<^verbatim>\<open>name\<close>, \<^verbatim>\<open>namespace\<close> and \<^verbatim>\<open>reason\<close> are mapped to themselves;
  every other key \<open>k\<close> is mapped to \<^verbatim>\<open>label_\<close> followed by the sanitized \<open>k\<close>, which is
  never \<open>k\<close> itself, so that no other key is passed through.
\<close>

theorem getMetricLabelName_mapping:
  "(k \<in> {''name'', ''namespace'', ''reason''} \<longrightarrow> getMetricLabelName k = k) \<and>
   (k \<notin> {''name'', ''namespace'', ''reason''} \<longrightarrow>
      getMetricLabelName k = ''label_'' @ sanitizeLabelName k \<and> getMetricLabelName k \<noteq> k)"
  using prefixed_neq [of k] by (auto simp: getMetricLabelName_def defaultMetricLabels_def)

theorem getMetricLabelName_mapping_witness:
  "''reason'' \<in> {''name'', ''namespace'', ''reason''} \<and>
   getMetricLabelName ''reason'' = ''reason'' \<and>
   ''test_label'' \<notin> {''name'', ''namespace'', ''reason''} \<and>
   getMetricLabelName ''test_label'' = ''label_'' @ sanitizeLabelName ''test_label'' \<and>
   getMetricLabelName ''test_label'' \<noteq> ''test_label''"
  using getMetricLabelName_mapping [of "''reason''"] getMetricLabelName_mapping [of "''test_label''"]
  by simp

section \<open>Label sets\<close>

lemma set_defaultMetricLabels: "set defaultMetricLabels = {''name'', ''namespace'', ''reason''}"
  by (simp add: defaultMetricLabels_def)

lemma getMetricLabelName_not_mandatory:
  "label \<notin> set defaultMetricLabels \<Longrightarrow> getMetricLabelName label \<notin> set defaultMetricLabels"
  by (simp add: getMetricLabelName_def defaultMetricLabels_def)

lemma getMetricLabels_loop_other:
  "\<forall>label \<in> set ls. label \<notin> set defaultMetricLabels \<longrightarrow> getMetricLabelName label \<noteq> n \<Longrightarrow>
   getMetricLabels_loop ls obj pl n = pl n"
  by (induction ls arbitrary: pl) auto

lemma getMetricLabels_loop_mandatory:
  "n \<in> set defaultMetricLabels \<Longrightarrow> getMetricLabels_loop ls obj pl n = pl n"
  by (rule getMetricLabels_loop_other) (auto dest: getMetricLabelName_not_mandatory)

lemma getMetricLabels_loop_Cons_key:
  "getMetricLabels_loop (x # xs) obj pl =
     getMetricLabels_loop xs obj
       (if x \<notin> set defaultMetricLabels
        then pl(getMetricLabelName x \<mapsto> indexString (Labels obj) x) else pl)"
  by simp

text \<open>
  The value under a metric label name is the value of the keys that are stored under that
  name, when they all carry one value; otherwise the last of them in the list wins.
\<close>

lemma getMetricLabels_loop_value:
  assumes "\<forall>k' \<in> set ls. k' \<notin> set defaultMetricLabels \<and> getMetricLabelName k' = n \<longrightarrow>
             indexString (Labels obj) k' = v"
  shows "getMetricLabels_loop ls obj pl n =
           (if \<exists>k' \<in> set ls. k' \<notin> set defaultMetricLabels \<and> getMetricLabelName k' = n
            then Some v else pl n)"
  using assms
proof (induction ls arbitrary: pl)
  case Nil
  show ?case by simp
next
  case (Cons x xs)
  let ?pl' = "if x \<notin> set defaultMetricLabels
              then pl(getMetricLabelName x \<mapsto> indexString (Labels obj) x) else pl"
  from Cons.prems
  have rest: "\<forall>k' \<in> set xs. k' \<notin> set defaultMetricLabels \<and> getMetricLabelName k' = n \<longrightarrow>
             indexString (Labels obj) k' = v"
    by simp
  have step: "getMetricLabels_loop (x # xs) obj pl n =
           (if \<exists>k' \<in> set xs. k' \<notin> set defaultMetricLabels \<and> getMetricLabelName k' = n
            then Some v else ?pl' n)"
    unfolding getMetricLabels_loop_Cons_key by (rule Cons.IH [OF rest])
  show ?case
  proof (cases "x \<notin> set defaultMetricLabels \<and> getMetricLabelName x = n")
    case True
    with Cons.prems have "indexString (Labels obj) x = v" by simp
    with True have A: "?pl' n = Some v" by simp
    from True
    have B: "(\<exists>k' \<in> set (x # xs). k' \<notin> set defaultMetricLabels \<and> getMetricLabelName k' = n) = True"
      by simp
    show ?thesis by (simp only: step A B if_True if_cancel)
  next
    case False
    then have A: "?pl' n = pl n" by auto
    from False
    have B: "(\<exists>k' \<in> set (x # xs). k' \<notin> set defaultMetricLabels \<and> getMetricLabelName k' = n)
        = (\<exists>k' \<in> set xs. k' \<notin> set defaultMetricLabels \<and> getMetricLabelName k' = n)"
      by auto
    show ?thesis by (simp only: step A B)
  qed
qed

lemma getMetricLabels_name: "getMetricLabels ls obj r ''name'' = Some (Name obj)"
  by (simp add: getMetricLabels_def getMetricLabels_loop_mandatory defaultMetricLabels_def)

lemma getMetricLabels_namespace: "getMetricLabels ls obj r ''namespace'' = Some (Namespace obj)"
  by (simp add: getMetricLabels_def getMetricLabels_loop_mandatory defaultMetricLabels_def)

lemma getMetricLabels_reason: "getMetricLabels ls obj r ''reason'' = Some r"
  by (simp add: getMetricLabels_def getMetricLabels_loop_mandatory defaultMetricLabels_def)

lemma getMetricLabels_inj: "(getMetricLabels ls obj r = getMetricLabels ls obj r') = (r = r')"
proof
  assume "getMetricLabels ls obj r = getMetricLabels ls obj r'"
  then have "getMetricLabels ls obj r ''reason'' = getMetricLabels ls obj r' ''reason''" by simp
  then show "r = r'" by (simp add: getMetricLabels_reason)
qed simp

text \<open>
  Where several keys of the list are stored under one metric label name, each assignment
  overwrites the one before: the value that stays is that of the last such key.
\<close>

lemma getMetricLabels_loop_last:
  "getMetricLabels_loop ls obj pl n =
     (if filter (\<lambda>k'. k' \<notin> set defaultMetricLabels \<and> getMetricLabelName k' = n) ls = []
      then pl n
      else Some (indexString (Labels obj)
             (last (filter (\<lambda>k'. k' \<notin> set defaultMetricLabels \<and> getMetricLabelName k' = n) ls))))"
proof (induction ls arbitrary: pl)
  case Nil
  show ?case by simp
next
  case (Cons x xs)
  let ?P = "\<lambda>k'. k' \<notin> set defaultMetricLabels \<and> getMetricLabelName k' = n"
  let ?pl' = "if x \<notin> set defaultMetricLabels
              then pl(getMetricLabelName x \<mapsto> indexString (Labels obj) x) else pl"
  have step: "getMetricLabels_loop (x # xs) obj pl n =
     (if filter ?P xs = [] then ?pl' n
      else Some (indexString (Labels obj) (last (filter ?P xs))))"
    unfolding getMetricLabels_loop_Cons_key by (rule Cons.IH)
  show ?case
  proof (cases "?P x")
    case True
    then have A: "?pl' n = Some (indexString (Labels obj) x)" by simp
    from True have B: "filter ?P (x # xs) = x # filter ?P xs" by simp
    show ?thesis unfolding step A B by simp
  next
    case False
    then have A: "?pl' n = pl n" by auto
    from False have B: "filter ?P (x # xs) = filter ?P xs" by simp
    show ?thesis unfolding step A B ..
  qed
qed

lemma getMetricLabels_last:
  assumes "k \<in> set ls" and "k \<notin> set defaultMetricLabels"
  shows "getMetricLabels ls obj r (getMetricLabelName k) =
     Some (indexString (Labels obj)
       (last (filter (\<lambda>k'. k' \<notin> set defaultMetricLabels \<and>
                           getMetricLabelName k' = getMetricLabelName k) ls)))"
proof -
  from assms
  have "filter (\<lambda>k'. k' \<notin> set defaultMetricLabels \<and>
                      getMetricLabelName k' = getMetricLabelName k) ls \<noteq> []"
    by (auto simp: filter_empty_conv)
  then show ?thesis
    unfolding getMetricLabels_def getMetricLabels_loop_last [of ls obj _ "getMetricLabelName k"]
    by simp
qed

lemma getMetricLabels_extra:
  assumes "k \<in> set ls" and "k \<notin> set defaultMetricLabels"
    and "\<forall>k' \<in> set ls. k' \<notin> set defaultMetricLabels \<and> getMetricLabelName k' = getMetricLabelName k \<longrightarrow>
           indexString (Labels obj) k' = indexString (Labels obj) k"
  shows "getMetricLabels ls obj r (getMetricLabelName k) = Some (indexString (Labels obj) k)"
proof -
  from assms(1,2)
  have "\<exists>k' \<in> set ls. k' \<notin> set defaultMetricLabels \<and> getMetricLabelName k' = getMetricLabelName k"
    by blast
  then show ?thesis
    unfolding getMetricLabels_def getMetricLabels_loop_value [OF assms(3)] by simp
qed

text \<open>
  Claim C6, as the code has it. A label set always holds \<^verbatim>\<open>name\<close>, \<^verbatim>\<open>namespace\<close> and
  \<^verbatim>\<open>reason\<close> with the object's name, the object's namespace and the reason. For an extra key
  \<open>k\<close> that is not one of these three, it holds under the metric label name of \<open>k\<close> the
  object's label \<open>k'\<close>, or the empty string when the object has no such label, where \<open>k'\<close>
  is the last extra key of the list that is not mandatory and has the metric label name of
  \<open>k\<close>. This is the object's label \<open>k\<close> itself provided that the other extra keys with the
  same metric label name carry the same value for the object (which is so when \<open>k\<close> is the
  only key with that name).
\<close>

theorem getMetricLabels_contents:
  "getMetricLabels ls obj r ''name'' = Some (Name obj) \<and>
   getMetricLabels ls obj r ''namespace'' = Some (Namespace obj) \<and>
   getMetricLabels ls obj r ''reason'' = Some r \<and>
   (\<forall>k \<in> set ls. k \<notin> {''name'', ''namespace'', ''reason''} \<longrightarrow>
      getMetricLabels ls obj r (getMetricLabelName k) =
        Some (case Labels obj
                (last (filter (\<lambda>k'. k' \<notin> {''name'', ''namespace'', ''reason''} \<and>
                                    getMetricLabelName k' = getMetricLabelName k) ls)) of
              None \<Rightarrow> [] | Some v \<Rightarrow> v)) \<and>
   (\<forall>k \<in> set ls. k \<notin> {''name'', ''namespace'', ''reason''} \<longrightarrow>
      (\<forall>k' \<in> set ls. k' \<notin> {''name'', ''namespace'', ''reason''} \<and>
          getMetricLabelName k' = getMetricLabelName k \<longrightarrow>
          indexString (Labels obj) k' = indexString (Labels obj) k) \<longrightarrow>
      getMetricLabels ls obj r (getMetricLabelName k) =
        Some (case Labels obj k of None \<Rightarrow> [] | Some v \<Rightarrow> v))"
proof (intro conjI ballI impI)
  show "getMetricLabels ls obj r ''name'' = Some (Name obj)" by (rule getMetricLabels_name)
  show "getMetricLabels ls obj r ''namespace'' = Some (Namespace obj)"
    by (rule getMetricLabels_namespace)
  show "getMetricLabels ls obj r ''reason'' = Some r" by (rule getMetricLabels_reason)
next
  fix k
  assume k: "k \<in> set ls" and nm: "k \<notin> {''name'', ''namespace'', ''reason''}"
  from nm have nd: "k \<notin> set defaultMetricLabels" unfolding set_defaultMetricLabels .
  show "getMetricLabels ls obj r (getMetricLabelName k) =
        Some (case Labels obj
                (last (filter (\<lambda>k'. k' \<notin> {''name'', ''namespace'', ''reason''} \<and>
                                    getMetricLabelName k' = getMetricLabelName k) ls)) of
              None \<Rightarrow> [] | Some v \<Rightarrow> v)"
    using getMetricLabels_last [OF k nd, of obj r]
    unfolding set_defaultMetricLabels indexString_def .
next
  fix k
  assume k: "k \<in> set ls" and nm: "k \<notin> {''name'', ''namespace'', ''reason''}"
    and same: "\<forall>k' \<in> set ls. k' \<notin> {''name'', ''namespace'', ''reason''} \<and>
          getMetricLabelName k' = getMetricLabelName k \<longrightarrow>
          indexString (Labels obj) k' = indexString (Labels obj) k"
  from nm have nd: "k \<notin> set defaultMetricLabels" unfolding set_defaultMetricLabels .
  from same
  have same': "\<forall>k' \<in> set ls. k' \<notin> set defaultMetricLabels \<and>
          getMetricLabelName k' = getMetricLabelName k \<longrightarrow>
          indexString (Labels obj) k' = indexString (Labels obj) k"
    unfolding set_defaultMetricLabels .
  have "indexString (Labels obj) k = (case Labels obj k of None \<Rightarrow> [] | Some v \<Rightarrow> v)"
    by (simp add: indexString_def)
  with getMetricLabels_extra [OF k nd same']
  show "getMetricLabels ls obj r (getMetricLabelName k) =
          Some (case Labels obj k of None \<Rightarrow> [] | Some v \<Rightarrow> v)"
    by (simp only:)
qed

theorem getMetricLabels_contents_witness:
  "getMetricLabels [''name'', ''test_label'', ''absent''] (InvolvedObject testEvent) ''Starting''
     ''name'' = Some ''testpod'' \<and>
   getMetricLabels [''name'', ''test_label'', ''absent''] (InvolvedObject testEvent) ''Starting''
     ''namespace'' = Some ''testnamespace'' \<and>
   getMetricLabels [''name'', ''test_label'', ''absent''] (InvolvedObject testEvent) ''Starting''
     ''reason'' = Some ''Starting'' \<and>
   getMetricLabels [''name'', ''test_label'', ''absent''] (InvolvedObject testEvent) ''Starting''
     ''label_test_label'' = Some ''test_label_value'' \<and>
   getMetricLabels [''name'', ''test_label'', ''absent''] (InvolvedObject testEvent) ''Starting''
     ''label_absent'' = Some [] \<and>
   getMetricLabels [''a.b'', ''a-b'']
     \<lparr>Kind = ''Pod'', Name = ''p1'', Namespace = ''ns'', Labels = [''a.b'' \<mapsto> ''x'', ''a-b'' \<mapsto> ''y'']\<rparr>
     ''Starting'' ''label_a_b'' = Some ''y''"
  using getMetricLabels_contents
    [of "[''name'', ''test_label'', ''absent'']" "InvolvedObject testEvent" "''Starting''"]
    getMetricLabels_contents
    [of "[''a.b'', ''a-b'']"
      "\<lparr>Kind = ''Pod'', Name = ''p1'', Namespace = ''ns'', Labels = [''a.b'' \<mapsto> ''x'', ''a-b'' \<mapsto> ''y'']\<rparr>"
      "''Starting''"]
  by (simp add: testEvent_def mockEvent_def getMetricLabelName_def defaultMetricLabels_def
      sanitizeLabelName_def ToLower_def toLowerByte_def char_defs decodeSize.simps
      indexString_def)

text \<open>
  Claim C6 as it is written fails where two extra keys have one metric label name: the
  keys \<^verbatim>\<open>a.b\<close> and \<^verbatim>\<open>a-b\<close> are both stored under \<^verbatim>\<open>label_a_b\<close>, and the label set holds the
  value of the later key there, not the object's label \<^verbatim>\<open>a.b\<close>.
\<close>

theorem getMetricLabels_collision:
  "getMetricLabels [''a.b'', ''a-b'']
     \<lparr>Kind = ''Pod'', Name = ''p1'', Namespace = ''ns'', Labels = [''a.b'' \<mapsto> ''x'', ''a-b'' \<mapsto> ''y'']\<rparr>
     ''Starting'' (getMetricLabelName ''a.b'') = Some ''y'' \<and>
   Labels \<lparr>Kind = ''Pod'', Name = ''p1'', Namespace = ''ns'', Labels = [''a.b'' \<mapsto> ''x'', ''a-b'' \<mapsto> ''y'']\<rparr>
     ''a.b'' = Some ''x''"
  by (simp add: getMetricLabels_def getMetricLabelName_def defaultMetricLabels_def
      sanitizeLabelName_def ToLower_def toLowerByte_def char_defs decodeSize.simps indexString_def)

section \<open>Construction of the sink\<close>

lemma appendLabels_filter:
  "appendLabels labels extra = labels @ filter (\<lambda>label. label \<notin> set defaultMetricLabels) extra"
  by (induction extra arbitrary: labels) auto

lemma kindLabels_eq:
  "kindLabels config kind =
     defaultMetricLabels @
     filter (\<lambda>label. label \<notin> set defaultMetricLabels) (indexSlice (LabelFilter config) kind)"
  by (simp add: kindLabels_def appendLabels_filter indexSlice_def split: option.splits)

lemma kindLabels_count:
  "m \<in> set defaultMetricLabels \<Longrightarrow> count_list (kindLabels config kind) m = 1"
proof -
  assume m: "m \<in> set defaultMetricLabels"
  then have "count_list (filter (\<lambda>label. label \<notin> set defaultMetricLabels)
               (indexSlice (LabelFilter config) kind)) m = 0"
    by (simp add: count_list_0_iff)
  moreover from m have "count_list defaultMetricLabels m = 1"
    by (auto simp: defaultMetricLabels_def)
  ultimately show ?thesis by (simp add: kindLabels_eq)
qed

lemma kindLabels_distinct:
  "distinct (kindLabels config kind) =
     distinct (filter (\<lambda>label. label \<notin> set defaultMetricLabels)
                 (indexSlice (LabelFilter config) kind))"
proof -
  have "distinct defaultMetricLabels" by (simp add: defaultMetricLabels_def)
  then show ?thesis by (auto simp: kindLabels_eq)
qed

lemma defaultPrefix_LabelFilter: "LabelFilter (defaultPrefix config) = LabelFilter config"
  by (simp add: defaultPrefix_def)

lemma defaultPrefix_ReasonFilter: "ReasonFilter (defaultPrefix config) = ReasonFilter config"
  by (simp add: defaultPrefix_def)

lemma kindLabels_defaultPrefix: "kindLabels (defaultPrefix config) kind = kindLabels config kind"
  by (simp add: kindLabels_def defaultPrefix_LabelFilter)

text \<open>
  What the loop of the constructor leaves in the sink when no registration panics.
\<close>

lemma NewPrometheusSink_loop_result:
  "NewPrometheusSink_loop unicodeLower mustRegister config order sink registry = Inr (sink', registry') \<Longrightarrow>
   cfg sink' = cfg sink \<and> kinds sink' = kinds sink @ order \<and>
   metricLabelsByKind sink' =
     (\<lambda>kind. if kind \<in> set order then Some (kindLabels config kind)
             else metricLabelsByKind sink kind) \<and>
   metricsByKind sink' =
     (\<lambda>kind. if kind \<in> set order
             then Some (NewGaugeVec
                    \<lparr>opts_Name = metricName unicodeLower config kind,
                     opts_Help = ''Event counts for '' @ kind @ '' resources.''\<rparr>
                    (getMetricLabelNames (kindLabels config kind)))
             else metricsByKind sink kind)"
proof (induction order arbitrary: sink registry)
  case Nil
  then show ?case by simp
next
  case (Cons kind rest)
  let ?v = "NewGaugeVec
              \<lparr>opts_Name = metricName unicodeLower config kind,
               opts_Help = ''Event counts for '' @ kind @ '' resources.''\<rparr>
              (getMetricLabelNames (kindLabels config kind))"
  let ?sink1 = "sink\<lparr>kinds := kinds sink @ [kind],
                  metricsByKind := (metricsByKind sink)(kind \<mapsto> ?v),
                  metricLabelsByKind := (metricLabelsByKind sink)(kind \<mapsto> kindLabels config kind)\<rparr>"
  from Cons.prems obtain registry1
    where reg: "mustRegister registry ?v = Some registry1"
      and rest: "NewPrometheusSink_loop unicodeLower mustRegister config rest ?sink1 registry1 = Inr (sink', registry')"
    by (auto simp: newGaugeVec_def Let_def split: option.splits)
  from Cons.IH [OF rest] show ?case by (auto simp: fun_eq_iff)
qed

lemma NewPrometheusSink_result:
  assumes "NewPrometheusSink unicodeLower mustRegister order registry config = (config', Inr ((sink, err), registry'))"
  shows "config' = defaultPrefix config \<and> err = None \<and> cfg sink = config' \<and> kinds sink = order \<and>
   metricLabelsByKind sink =
     (\<lambda>kind. if kind \<in> set order then Some (kindLabels config kind) else None) \<and>
   metricsByKind sink =
     (\<lambda>kind. if kind \<in> set order
             then Some (NewGaugeVec
                    \<lparr>opts_Name = metricName unicodeLower config' kind,
                     opts_Help = ''Event counts for '' @ kind @ '' resources.''\<rparr>
                    (getMetricLabelNames (kindLabels config kind)))
             else None)"
proof -
  let ?s0 = "\<lparr>cfg = defaultPrefix config, kinds = [], metricsByKind = Map.empty,
               metricLabelsByKind = Map.empty\<rparr> :: GaugeVec PrometheusSink"
  from assms have c: "config' = defaultPrefix config"
    and e: "err = None"
    and l: "NewPrometheusSink_loop unicodeLower mustRegister (defaultPrefix config) order ?s0 registry = Inr (sink, registry')"
    by (auto simp: NewPrometheusSink_def Let_def split: sum.splits)
  from NewPrometheusSink_loop_result [OF l] c e show ?thesis
    by (simp add: kindLabels_defaultPrefix cong: if_cong)
qed

lemma NewPrometheusSink_invariant:
  assumes "NewPrometheusSink unicodeLower mustRegister order registry config = (config', Inr ((sink, err), registry'))"
  shows "sinkInvariant sink"
  using NewPrometheusSink_result [OF assms] by (simp add: sinkInvariant_def)

lemma NewPrometheusSink_example:
  "NewPrometheusSink (\<lambda>s. s) registerByName [''Pod''] [] exampleConfig =
     (exampleConfig\<lparr>EventsMetricsNamePrefix := ''event_exporter_''\<rparr>,
      Inr ((\<lparr>cfg = exampleConfig\<lparr>EventsMetricsNamePrefix := ''event_exporter_''\<rparr>,
             kinds = [''Pod''],
             metricsByKind = [''Pod'' \<mapsto>
               \<lparr>gv_opts = \<lparr>opts_Name = ''event_exporter_pod_event_count'',
                            opts_Help = ''Event counts for Pod resources.''\<rparr>,
                gv_labelNames = [''name'', ''namespace'', ''reason'', ''label_test_label''],
                series = Map.empty\<rparr>],
             metricLabelsByKind = [''Pod'' \<mapsto> [''name'', ''namespace'', ''reason'', ''test_label'']]\<rparr>,
            None),
           [''event_exporter_pod_event_count'']))"
  by (simp add: NewPrometheusSink_def defaultPrefix_def exampleConfig_def newGaugeVec_def
      NewGaugeVec_def registerByName_def metricName_def strings_ToLower_def kindLabels_def
      defaultMetricLabels_def
      getMetricLabelName_def sanitizeLabelName_def ToLower_def toLowerByte_def char_defs
      decodeSize.simps Let_def char_of_def bit_Suc_0_iff)

text \<open>
  Claim C8, as the code has it. When the constructor returns a sink, the label keys of a
  configured kind are the three mandatory keys followed by the configured extra keys that
  are not mandatory, in their order; the gauge vector of the kind is created with the
  metric label names of that list. As a set the list is the union of the mandatory keys
  and the extras, and each mandatory key is there exactly once, whatever the extras are. An extra key that the configuration lists twice is there twice: the list
  has no duplicate exactly when the extras that are not mandatory have none.
\<close>

theorem NewPrometheusSink_labels:
  assumes "NewPrometheusSink unicodeLower mustRegister order registry config = (config', Inr ((sink, err), registry'))"
    and "set order = dom (ReasonFilter config)"
    and "ReasonFilter config kind \<noteq> None"
  shows "\<exists>labels v.
     labels = [''name'', ''namespace'', ''reason''] @
       filter (\<lambda>label. label \<notin> {''name'', ''namespace'', ''reason''})
         (indexSlice (LabelFilter config) kind) \<and>
     metricLabelsByKind sink kind = Some labels \<and>
     metricsByKind sink kind = Some v \<and> gv_labelNames v = getMetricLabelNames labels \<and>
     set labels = {''name'', ''namespace'', ''reason''} \<union>
       set (indexSlice (LabelFilter config) kind) \<and>
     count_list labels ''name'' = 1 \<and> count_list labels ''namespace'' = 1 \<and>
     count_list labels ''reason'' = 1 \<and>
     distinct labels =
       distinct (filter (\<lambda>label. label \<notin> {''name'', ''namespace'', ''reason''})
         (indexSlice (LabelFilter config) kind))"
proof -
  from assms(2,3) have k: "kind \<in> set order" by auto
  have eq: "kindLabels config kind = [''name'', ''namespace'', ''reason''] @
       filter (\<lambda>label. label \<notin> {''name'', ''namespace'', ''reason''})
         (indexSlice (LabelFilter config) kind)"
    unfolding kindLabels_eq set_defaultMetricLabels by (simp add: defaultMetricLabels_def)
  have cnt: "count_list (kindLabels config kind) ''name'' = 1"
    "count_list (kindLabels config kind) ''namespace'' = 1"
    "count_list (kindLabels config kind) ''reason'' = 1"
    by (simp_all add: kindLabels_count set_defaultMetricLabels)
  have dist: "distinct (kindLabels config kind) =
       distinct (filter (\<lambda>label. label \<notin> {''name'', ''namespace'', ''reason''})
         (indexSlice (LabelFilter config) kind))"
    unfolding kindLabels_distinct set_defaultMetricLabels ..
  have st: "set (kindLabels config kind) = {''name'', ''namespace'', ''reason''} \<union>
       set (indexSlice (LabelFilter config) kind)"
    unfolding kindLabels_eq by (auto simp: set_defaultMetricLabels)
  from NewPrometheusSink_result [OF assms(1)] k
  have "metricLabelsByKind sink kind = Some (kindLabels config kind)"
    and "\<exists>v. metricsByKind sink kind = Some v \<and>
           gv_labelNames v = getMetricLabelNames (kindLabels config kind)"
    by (simp_all add: NewGaugeVec_def)
  with cnt dist st show ?thesis unfolding eq by blast
qed

theorem NewPrometheusSink_labels_witness:
  "set [''Pod''] = dom (ReasonFilter exampleConfig) \<and>
   ReasonFilter exampleConfig ''Pod'' \<noteq> None \<and>
   (\<exists>config' sink registry'.
      NewPrometheusSink (\<lambda>s. s) registerByName [''Pod''] [] exampleConfig
        = (config', Inr ((sink, None), registry')) \<and>
      metricLabelsByKind sink ''Pod'' = Some [''name'', ''namespace'', ''reason'', ''test_label''])"
proof -
  have h2: "set [''Pod''] = dom (ReasonFilter exampleConfig)"
    by (simp add: exampleConfig_def)
  have h3: "ReasonFilter exampleConfig ''Pod'' \<noteq> None"
    by (simp add: exampleConfig_def)
  have f: "[''name'', ''namespace'', ''reason''] @
       filter (\<lambda>label. label \<notin> {''name'', ''namespace'', ''reason''})
         (indexSlice (LabelFilter exampleConfig) ''Pod'')
       = [''name'', ''namespace'', ''reason'', ''test_label'']"
    by (simp add: exampleConfig_def indexSlice_def)
  from NewPrometheusSink_labels [OF NewPrometheusSink_example h2 h3] obtain labels
    where "labels = [''name'', ''namespace'', ''reason''] @
       filter (\<lambda>label. label \<notin> {''name'', ''namespace'', ''reason''})
         (indexSlice (LabelFilter exampleConfig) ''Pod'')"
      and "metricLabelsByKind
         \<lparr>cfg = exampleConfig\<lparr>EventsMetricsNamePrefix := ''event_exporter_''\<rparr>,
             kinds = [''Pod''],
             metricsByKind = [''Pod'' \<mapsto>
               \<lparr>gv_opts = \<lparr>opts_Name = ''event_exporter_pod_event_count'',
                            opts_Help = ''Event counts for Pod resources.''\<rparr>,
                gv_labelNames = [''name'', ''namespace'', ''reason'', ''label_test_label''],
                series = Map.empty\<rparr>],
             metricLabelsByKind = [''Pod'' \<mapsto> [''name'', ''namespace'', ''reason'', ''test_label'']]\<rparr>
         ''Pod'' = Some labels"
    by blast
  with f NewPrometheusSink_example h2 h3 show ?thesis by (simp only: simp_thms) blast
qed

text \<open>
  Claim C8 as it is written fails for a configuration that lists an extra key twice: the
  key is appended twice, since only the mandatory keys are looked for.
\<close>

theorem kindLabels_duplicate:
  "kindLabels \<lparr>EventsMetricsNamePrefix = [], ReasonFilter = [''Pod'' \<mapsto> [''Starting'']],
               LabelFilter = [''Pod'' \<mapsto> [''app'', ''app'']]\<rparr> ''Pod''
     = [''name'', ''namespace'', ''reason'', ''app'', ''app''] \<and>
   \<not> distinct (kindLabels \<lparr>EventsMetricsNamePrefix = [], ReasonFilter = [''Pod'' \<mapsto> [''Starting'']],
               LabelFilter = [''Pod'' \<mapsto> [''app'', ''app'']]\<rparr> ''Pod'')"
  by (simp add: kindLabels_def defaultMetricLabels_def)

text \<open>
  Claim C10. When the prefix of the configuration is empty, the configuration the caller
  holds after the call is the one it passed with the prefix \<^verbatim>\<open>event_exporter_\<close> and every
  other field as before, whether or not a registration panics afterwards. The write comes
  before the registry is built: when a sink is returned, it holds the changed
  configuration, and the gauge vector of every kind bears the default prefix in its name.
\<close>

theorem NewPrometheusSink_config:
  assumes "EventsMetricsNamePrefix config = []"
  shows "fst (NewPrometheusSink unicodeLower mustRegister order registry config)
           = config\<lparr>EventsMetricsNamePrefix := ''event_exporter_''\<rparr> \<and>
         ReasonFilter (fst (NewPrometheusSink unicodeLower mustRegister order registry config))
           = ReasonFilter config \<and>
         LabelFilter (fst (NewPrometheusSink unicodeLower mustRegister order registry config))
           = LabelFilter config \<and>
         (\<forall>sink err registry'.
            snd (NewPrometheusSink unicodeLower mustRegister order registry config)
              = Inr ((sink, err), registry') \<longrightarrow>
            cfg sink = config\<lparr>EventsMetricsNamePrefix := ''event_exporter_''\<rparr> \<and>
            (\<forall>kind \<in> set order. \<exists>v. metricsByKind sink kind = Some v \<and>
               opts_Name (gv_opts v) = ''event_exporter_'' @ strings_ToLower unicodeLower kind @ ''_event_count''))"
proof -
  from assms have d: "defaultPrefix config = config\<lparr>EventsMetricsNamePrefix := ''event_exporter_''\<rparr>"
    by (simp add: defaultPrefix_def)
  have f: "fst (NewPrometheusSink unicodeLower mustRegister order registry config) = defaultPrefix config"
    by (simp add: NewPrometheusSink_def Let_def)
  have "cfg sink = config\<lparr>EventsMetricsNamePrefix := ''event_exporter_''\<rparr> \<and>
            (\<forall>kind \<in> set order. \<exists>v. metricsByKind sink kind = Some v \<and>
               opts_Name (gv_opts v) = ''event_exporter_'' @ strings_ToLower unicodeLower kind @ ''_event_count'')"
    if "snd (NewPrometheusSink unicodeLower mustRegister order registry config) = Inr ((sink, err), registry')"
    for sink err registry'
  proof -
    from that f
    have "NewPrometheusSink unicodeLower mustRegister order registry config
            = (defaultPrefix config, Inr ((sink, err), registry'))"
      by (metis prod.collapse)
    from NewPrometheusSink_result [OF this] show ?thesis
      by (simp add: d NewGaugeVec_def metricName_def)
  qed
  with f d show ?thesis by simp
qed

theorem NewPrometheusSink_config_witness:
  "EventsMetricsNamePrefix exampleConfig = [] \<and>
   fst (NewPrometheusSink (\<lambda>s. s) registerByName [''Pod''] [] exampleConfig)
     = exampleConfig\<lparr>EventsMetricsNamePrefix := ''event_exporter_''\<rparr> \<and>
   EventsMetricsNamePrefix (fst (NewPrometheusSink (\<lambda>s. s) registerByName [''Pod''] [] exampleConfig))
     = ''event_exporter_''"
proof -
  have h: "EventsMetricsNamePrefix exampleConfig = []" by (simp add: exampleConfig_def)
  from NewPrometheusSink_config [where config = exampleConfig and unicodeLower = "\<lambda>s. s"
      and mustRegister = registerByName and order = "[''Pod'']" and registry = "[]", OF h] h
  show ?thesis by simp
qed

section \<open>Sending events\<close>

lemma Send_unknown:
  "Kind (InvolvedObject ev) \<notin> set (kinds s) \<Longrightarrow> Send I s ev = Inr (None, s)"
  by (simp add: Send_def)

lemma Send_known:
  assumes "Kind (InvolvedObject ev) \<in> set (kinds s)"
    and "metricsByKind s (Kind (InvolvedObject ev)) = Some g"
  shows "Send I s ev =
     Inr (None, s\<lparr>metricsByKind := (metricsByKind s)(Kind (InvolvedObject ev) \<mapsto>
            Send_loop I (indexSlice (metricLabelsByKind s) (Kind (InvolvedObject ev))) ev
              (indexSlice (ReasonFilter (cfg s)) (Kind (InvolvedObject ev))) g)\<rparr>)"
  using assms by (simp add: Send_def Let_def)

lemma Send_total:
  assumes "sinkInvariant s"
  shows "\<exists>s'. Send I s ev = Inr (None, s') \<and> sinkInvariant s'"
proof (cases "Kind (InvolvedObject ev) \<in> set (kinds s)")
  case False
  with assms show ?thesis by (simp add: Send_unknown)
next
  case True
  with assms obtain g where g: "metricsByKind s (Kind (InvolvedObject ev)) = Some g"
    by (auto simp: sinkInvariant_def)
  from assms show ?thesis
    unfolding Send_known [OF True g] by (simp add: sinkInvariant_def)
qed

lemma SetEventCount_mock:
  "SetEventCount mockGaugeVec calls ml obj r c =
     calls @ [Call_With_Set (getMetricLabels ml obj r) (float64 c)]"
  by (simp add: SetEventCount_def mockGaugeVec_def)

lemma DeleteEventCount_mock:
  "DeleteEventCount mockGaugeVec calls ml obj r = calls @ [Call_Delete (getMetricLabels ml obj r)]"
  by (simp add: DeleteEventCount_def mockGaugeVec_def)

lemma Send_loop_mock:
  "Send_loop mockGaugeVec ml ev rs calls =
     calls @ map (\<lambda>r. if r = Reason ev
                       then Call_With_Set (getMetricLabels ml (InvolvedObject ev) r) (float64 (Count ev))
                       else Call_Delete (getMetricLabels ml (InvolvedObject ev) r)) rs"
proof (induction rs arbitrary: calls)
  case Nil
  show ?case by simp
next
  case (Cons r rs)
  show ?case
    by (cases "r = Reason ev")
      (simp_all add: Cons.IH SetEventCount_mock DeleteEventCount_mock)
qed

text \<open>
  The sweep over the reasons on a gauge vector: the series of the event's object for the
  listed reasons are overwritten, all other series are kept.
\<close>

lemma Send_loop_gaugeVec:
  "Send_loop gaugeVecImpl ml ev rs g =
     g\<lparr>series := (\<lambda>l. if l \<in> getMetricLabels ml (InvolvedObject ev) ` set rs
                      then (if l = getMetricLabels ml (InvolvedObject ev) (Reason ev)
                            then Some (float64 (Count ev)) else None)
                      else series g l)\<rparr>"
proof (induction rs arbitrary: g)
  case Nil
  show ?case by simp
next
  case (Cons r rs)
  let ?L = "getMetricLabels ml (InvolvedObject ev)"
  let ?g1 = "if Reason ev = r
             then g\<lparr>series := (series g)(?L r \<mapsto> float64 (Count ev))\<rparr>
             else g\<lparr>series := (series g)(?L r := None)\<rparr>"
  have step: "Send_loop gaugeVecImpl ml ev (r # rs) g = Send_loop gaugeVecImpl ml ev rs ?g1"
    by (simp add: SetEventCount_def DeleteEventCount_def gaugeVecImpl_def
        GaugeVec_With_Set_def GaugeVec_Delete_def)
  have g1: "?g1 = g\<lparr>series := series ?g1\<rparr>" by simp
  have ser: "(\<lambda>l. if l \<in> ?L ` set rs
                  then (if l = ?L (Reason ev) then Some (float64 (Count ev)) else None)
                  else series ?g1 l)
           = (\<lambda>l. if l \<in> ?L ` set (r # rs)
                  then (if l = ?L (Reason ev) then Some (float64 (Count ev)) else None)
                  else series g l)"
  proof (rule ext)
    fix l
    show "(if l \<in> ?L ` set rs
           then (if l = ?L (Reason ev) then Some (float64 (Count ev)) else None)
           else series ?g1 l)
        = (if l \<in> ?L ` set (r # rs)
           then (if l = ?L (Reason ev) then Some (float64 (Count ev)) else None)
           else series g l)"
    proof (cases "l = ?L r")
      case True
      then show ?thesis by (auto simp: getMetricLabels_inj)
    next
      case False
      then show ?thesis by auto
    qed
  qed
  have "Send_loop gaugeVecImpl ml ev rs ?g1 =
      ?g1\<lparr>series := (\<lambda>l. if l \<in> ?L ` set rs
                  then (if l = ?L (Reason ev) then Some (float64 (Count ev)) else None)
                  else series ?g1 l)\<rparr>"
    by (rule Cons.IH)
  also have "\<dots> = g\<lparr>series := (\<lambda>l. if l \<in> ?L ` set rs
                  then (if l = ?L (Reason ev) then Some (float64 (Count ev)) else None)
                  else series ?g1 l)\<rparr>"
    by simp
  finally show ?case unfolding step ser .
qed

lemma Send_loop_gaugeVec_idem:
  "Send_loop gaugeVecImpl ml ev rs (Send_loop gaugeVecImpl ml ev rs g) =
     Send_loop gaugeVecImpl ml ev rs g"
proof -
  let ?L = "getMetricLabels ml (InvolvedObject ev)"
  let ?f = "\<lambda>h l. if l \<in> ?L ` set rs
                  then (if l = ?L (Reason ev) then Some (float64 (Count ev)) else None)
                  else h l"
  let ?g' = "Send_loop gaugeVecImpl ml ev rs g"
  have s: "series ?g' = ?f (series g)"
    unfolding Send_loop_gaugeVec [of ml ev rs g] by simp
  have ff: "?f (?f (series g)) = ?f (series g)" by (rule ext) simp
  have "Send_loop gaugeVecImpl ml ev rs ?g' = ?g'\<lparr>series := ?f (series ?g')\<rparr>"
    by (rule Send_loop_gaugeVec)
  also have "\<dots> = ?g'\<lparr>series := ?f (series g)\<rparr>"
    by (simp only: s ff)
  also have "\<dots> = ?g'\<lparr>series := series ?g'\<rparr>"
    by (simp only: s)
  also have "\<dots> = ?g'" by simp
  finally show ?thesis .
qed

lemma Send_loop_gaugeVec_series:
  assumes "r \<in> set rs"
  shows "series (Send_loop gaugeVecImpl ml ev rs g) (getMetricLabels ml (InvolvedObject ev) r) =
           (if r = Reason ev then Some (float64 (Count ev)) else None)"
  using assms unfolding Send_loop_gaugeVec [of ml ev rs] by (simp add: getMetricLabels_inj)

lemma Send_loop_gaugeVec_other:
  assumes "labels \<notin> getMetricLabels ml (InvolvedObject ev) ` set rs"
  shows "series (Send_loop gaugeVecImpl ml ev rs g) labels = series g labels"
  using assms unfolding Send_loop_gaugeVec [of ml ev rs] by simp

text \<open>
  One call of \<open>Send\<close> on the gauge vector of the event's kind: the series of the event's
  object, as the event carries it, are set or deleted for the configured reasons, and
  every other series is as before.
\<close>

lemma Send_gaugeVec_step:
  assumes "Kind (InvolvedObject ev) \<in> set (kinds s)"
    and "metricsByKind s (Kind (InvolvedObject ev)) = Some g"
  shows "\<exists>s' g'. Send gaugeVecImpl s ev = Inr (None, s') \<and>
     metricsByKind s' (Kind (InvolvedObject ev)) = Some g' \<and>
     cfg s' = cfg s \<and> kinds s' = kinds s \<and> metricLabelsByKind s' = metricLabelsByKind s \<and>
     (\<forall>r \<in> set (indexSlice (ReasonFilter (cfg s)) (Kind (InvolvedObject ev))).
        series g'
          (getMetricLabels (indexSlice (metricLabelsByKind s) (Kind (InvolvedObject ev)))
             (InvolvedObject ev) r)
        = (if r = Reason ev then Some (float64 (Count ev)) else None)) \<and>
     (\<forall>labels.
        labels \<notin> getMetricLabels (indexSlice (metricLabelsByKind s) (Kind (InvolvedObject ev)))
                   (InvolvedObject ev) `
                 set (indexSlice (ReasonFilter (cfg s)) (Kind (InvolvedObject ev))) \<longrightarrow>
        series g' labels = series g labels)"
  unfolding Send_known [OF assms]
  by (simp add: Send_loop_gaugeVec_series Send_loop_gaugeVec_other)

lemma Send_idem:
  assumes "Send gaugeVecImpl s ev = Inr (err, s1)"
  shows "Send gaugeVecImpl s1 ev = Inr (None, s1)"
proof (cases "Kind (InvolvedObject ev) \<in> set (kinds s)")
  case False
  with assms show ?thesis by (simp add: Send_unknown)
next
  case True
  show ?thesis
  proof (cases "metricsByKind s (Kind (InvolvedObject ev))")
    case None
    with True assms have "s1 = s" and "err = None"
      by (auto simp: Send_def Let_def split: if_splits)
    with assms show ?thesis by simp
  next
    case (Some g)
    let ?k = "Kind (InvolvedObject ev)"
    let ?g1 = "Send_loop gaugeVecImpl (indexSlice (metricLabelsByKind s) ?k) ev
                 (indexSlice (ReasonFilter (cfg s)) ?k) g"
    from assms have s1: "s1 = s\<lparr>metricsByKind := (metricsByKind s)(?k \<mapsto> ?g1)\<rparr>"
      unfolding Send_known [OF True Some] by simp
    have k1: "?k \<in> set (kinds s1)" using True by (simp add: s1)
    have m1: "metricsByKind s1 ?k = Some ?g1" by (simp add: s1)
    show ?thesis
      unfolding Send_known [OF k1 m1] by (simp add: s1 Send_loop_gaugeVec_idem)
  qed
qed

lemma SendAll_total:
  "sinkInvariant s \<Longrightarrow> \<exists>s'. SendAll I s evs = Inr s' \<and> sinkInvariant s'"
proof (induction evs arbitrary: s)
  case Nil
  then show ?case by simp
next
  case (Cons ev evs)
  from Send_total [OF Cons.prems, of I ev] obtain s1
    where s1: "Send I s ev = Inr (None, s1)" and inv: "sinkInvariant s1"
    by blast
  from Cons.IH [OF inv] show ?case by (simp add: s1)
qed

lemma exampleSink_invariant: "sinkInvariant (exampleSink g)"
  by (simp add: sinkInvariant_def exampleSink_def)

lemma exampleSink_kind: "Kind (InvolvedObject testEvent) \<in> set (kinds (exampleSink g))"
  by (simp add: exampleSink_def testEvent_def mockEvent_def)

text \<open>
  Claim C9. On a sink in which every listed kind has its gauge vector, as the constructor
  builds it, \<open>Send\<close> returns for every event, with the error value \<^verbatim>\<open>nil\<close>, and leaves such
  a sink; so does every sequence of calls. The event is arbitrary: its kind may be
  unknown, its object may lack labels, and the kind's list of reasons may be empty.
\<close>

theorem Send_never_fails:
  assumes "sinkInvariant s"
  shows "(\<exists>s'. Send I s ev = Inr (None, s') \<and> sinkInvariant s') \<and>
         (\<exists>s'. SendAll I s evs = Inr s')"
  using Send_total [OF assms, of I ev] SendAll_total [OF assms, of I evs] by blast

theorem Send_never_fails_witness:
  "sinkInvariant (exampleSink ([] :: mockCall list)) \<and>
   (\<exists>s'. Send mockGaugeVec (exampleSink []) (mockEvent ''Job'' ''j'' ''ns'' Map.empty ''Failed'' 2)
           = Inr (None, s') \<and> sinkInvariant s') \<and>
   (\<exists>s'. SendAll mockGaugeVec (exampleSink [])
            [testEvent, mockEvent ''Pod'' ''p'' ''ns'' Map.empty ''Creating'' 1] = Inr s')"
  using Send_never_fails [where s = "exampleSink []" and I = mockGaugeVec
      and ev = "mockEvent ''Job'' ''j'' ''ns'' Map.empty ''Failed'' 2"
      and evs = "[testEvent, mockEvent ''Pod'' ''p'' ''ns'' Map.empty ''Creating'' 1]",
      OF exampleSink_invariant]
    exampleSink_invariant [of "[] :: mockCall list"]
  by blast

text \<open>
  Claim C3. An event whose kind the sink does not list leaves the sink as it is: no method
  of any gauge vector is called. Otherwise the calls made on the gauge vector of the
  event's kind, as the recording mock shows them, are one call for each configured reason
  of the kind, in the order of the list: \<^verbatim>\<open>With(labels).Set(float64(count))\<close> for a reason
  equal to the event's, \<^verbatim>\<open>Delete(labels)\<close> for any other, with the label set built for
  that reason; nothing else in the sink changes.
\<close>

theorem Send_calls:
  assumes "sinkInvariant s"
  shows "(Kind (InvolvedObject ev) \<notin> set (kinds s) \<longrightarrow> Send mockGaugeVec s ev = Inr (None, s)) \<and>
    (Kind (InvolvedObject ev) \<in> set (kinds s) \<longrightarrow>
       (\<exists>calls. metricsByKind s (Kind (InvolvedObject ev)) = Some calls \<and>
          Send mockGaugeVec s ev =
            Inr (None, s\<lparr>metricsByKind := (metricsByKind s)(Kind (InvolvedObject ev) \<mapsto>
              calls @
              map (\<lambda>r. if r = Reason ev
                        then Call_With_Set
                               (getMetricLabels
                                  (indexSlice (metricLabelsByKind s) (Kind (InvolvedObject ev)))
                                  (InvolvedObject ev) r)
                               (float64 (Count ev))
                        else Call_Delete
                               (getMetricLabels
                                  (indexSlice (metricLabelsByKind s) (Kind (InvolvedObject ev)))
                                  (InvolvedObject ev) r))
                  (indexSlice (ReasonFilter (cfg s)) (Kind (InvolvedObject ev))))\<rparr>)))"
proof (intro conjI impI)
  assume "Kind (InvolvedObject ev) \<notin> set (kinds s)"
  then show "Send mockGaugeVec s ev = Inr (None, s)" by (rule Send_unknown)
next
  assume k: "Kind (InvolvedObject ev) \<in> set (kinds s)"
  with assms obtain calls where c: "metricsByKind s (Kind (InvolvedObject ev)) = Some calls"
    by (auto simp: sinkInvariant_def)
  show "\<exists>calls. metricsByKind s (Kind (InvolvedObject ev)) = Some calls \<and>
          Send mockGaugeVec s ev =
            Inr (None, s\<lparr>metricsByKind := (metricsByKind s)(Kind (InvolvedObject ev) \<mapsto>
              calls @
              map (\<lambda>r. if r = Reason ev
                        then Call_With_Set
                               (getMetricLabels
                                  (indexSlice (metricLabelsByKind s) (Kind (InvolvedObject ev)))
                                  (InvolvedObject ev) r)
                               (float64 (Count ev))
                        else Call_Delete
                               (getMetricLabels
                                  (indexSlice (metricLabelsByKind s) (Kind (InvolvedObject ev)))
                                  (InvolvedObject ev) r))
                  (indexSlice (ReasonFilter (cfg s)) (Kind (InvolvedObject ev))))\<rparr>)"
    unfolding Send_known [OF k c] Send_loop_mock using c by simp
qed

theorem Send_calls_witness:
  "sinkInvariant (exampleSink ([] :: mockCall list)) \<and>
   Send mockGaugeVec (exampleSink []) testEvent =
     Inr (None, (exampleSink [])\<lparr>metricsByKind := [''Pod'' \<mapsto>
       [Call_With_Set
          [''name'' \<mapsto> ''testpod'', ''namespace'' \<mapsto> ''testnamespace'',
           ''reason'' \<mapsto> ''Starting'', ''label_test_label'' \<mapsto> ''test_label_value''] 1,
        Call_Delete
          [''name'' \<mapsto> ''testpod'', ''namespace'' \<mapsto> ''testnamespace'',
           ''reason'' \<mapsto> ''Creating'', ''label_test_label'' \<mapsto> ''test_label_value'']]]\<rparr>) \<and>
   Send mockGaugeVec (exampleSink []) (mockEvent ''Job'' ''j'' ''ns'' Map.empty ''Failed'' 2) =
     Inr (None, exampleSink [])"
  using Send_calls [where s = "exampleSink []" and ev = testEvent, OF exampleSink_invariant]
    Send_calls [where s = "exampleSink []"
      and ev = "mockEvent ''Job'' ''j'' ''ns'' Map.empty ''Failed'' 2", OF exampleSink_invariant]
    exampleSink_invariant [of "[] :: mockCall list"]
  by (simp add: exampleSink_def exampleConfig_def testEvent_def mockEvent_def indexSlice_def
      indexString_def getMetricLabels_def getMetricLabelName_def defaultMetricLabels_def
      sanitizeLabelName_def ToLower_def toLowerByte_def char_defs decodeSize.simps float64_def)

text \<open>
  Claim C1, as the code has it. Let the sink list the kind of an event and hold its gauge
  vector. After the event is sent, the gauge vector of that kind holds, for every
  configured reason of the kind, the series of the event's object and that reason exactly
  when the reason is the event's, and then with the event's count as its value; the series
  of the object for every other configured reason is absent. Here the series of an object
  and a reason is the one whose label set is built from the object as the event carries
  it: its name, its namespace and its values of the extra labels. Every other series of
  the gauge vector is as it was before the event, also a series with the same name and
  namespace that an earlier event wrote with other values of the extra labels.
\<close>

theorem Send_active_reason:
  assumes "sinkInvariant s" and "Kind (InvolvedObject ev) \<in> set (kinds s)"
  shows "\<exists>g s' g'. metricsByKind s (Kind (InvolvedObject ev)) = Some g \<and>
     Send gaugeVecImpl s ev = Inr (None, s') \<and>
     metricsByKind s' (Kind (InvolvedObject ev)) = Some g' \<and>
     (\<forall>r \<in> set (indexSlice (ReasonFilter (cfg s)) (Kind (InvolvedObject ev))).
        series g'
          (getMetricLabels (indexSlice (metricLabelsByKind s) (Kind (InvolvedObject ev)))
             (InvolvedObject ev) r)
        = (if r = Reason ev then Some (float64 (Count ev)) else None)) \<and>
     (\<forall>labels.
        labels \<notin> getMetricLabels (indexSlice (metricLabelsByKind s) (Kind (InvolvedObject ev)))
                   (InvolvedObject ev) `
                 set (indexSlice (ReasonFilter (cfg s)) (Kind (InvolvedObject ev))) \<longrightarrow>
        series g' labels = series g labels)"
proof -
  from assms obtain g where g: "metricsByKind s (Kind (InvolvedObject ev)) = Some g"
    by (auto simp: sinkInvariant_def)
  from Send_gaugeVec_step [OF assms(2) g] g show ?thesis by blast
qed

theorem Send_active_reason_witness:
  "sinkInvariant (exampleSink exampleGaugeVec) \<and>
   Kind (InvolvedObject testEvent) \<in> set (kinds (exampleSink exampleGaugeVec)) \<and>
   (\<exists>s' g'. Send gaugeVecImpl (exampleSink exampleGaugeVec) testEvent = Inr (None, s') \<and>
     metricsByKind s' ''Pod'' = Some g' \<and>
     series g' (getMetricLabels (defaultMetricLabels @ [''test_label''])
                  (InvolvedObject testEvent) ''Starting'') = Some 1 \<and>
     series g' (getMetricLabels (defaultMetricLabels @ [''test_label''])
                  (InvolvedObject testEvent) ''Creating'') = None)"
proof -
  let ?s = "exampleSink exampleGaugeVec"
  have k: "Kind (InvolvedObject testEvent) = ''Pod''"
    by (simp add: testEvent_def mockEvent_def)
  have rs: "indexSlice (ReasonFilter (cfg ?s)) ''Pod'' = [''Starting'', ''Creating'']"
    by (simp add: exampleSink_def exampleConfig_def indexSlice_def)
  have ml: "indexSlice (metricLabelsByKind ?s) ''Pod'' = defaultMetricLabels @ [''test_label'']"
    by (simp add: exampleSink_def indexSlice_def)
  have r: "Reason testEvent = ''Starting''"
    by (simp add: testEvent_def mockEvent_def)
  have c: "float64 (Count testEvent) = 1"
    by (simp add: testEvent_def mockEvent_def float64_def)
  from Send_active_reason [where s = ?s and ev = testEvent, OF exampleSink_invariant exampleSink_kind]
  obtain s' g' where s': "Send gaugeVecImpl ?s testEvent = Inr (None, s')"
    and g': "metricsByKind s' ''Pod'' = Some g'"
    and ser: "\<forall>r \<in> set [''Starting'', ''Creating''].
        series g' (getMetricLabels (defaultMetricLabels @ [''test_label''])
                     (InvolvedObject testEvent) r)
        = (if r = ''Starting'' then Some 1 else None)"
    unfolding k rs ml r c by blast
  from ser have "series g' (getMetricLabels (defaultMetricLabels @ [''test_label''])
                  (InvolvedObject testEvent) ''Starting'') = Some 1"
    and "series g' (getMetricLabels (defaultMetricLabels @ [''test_label''])
                  (InvolvedObject testEvent) ''Creating'') = None"
    by simp_all
  with s' g' exampleSink_invariant [of exampleGaugeVec] exampleSink_kind [of exampleGaugeVec]
  show ?thesis by blast
qed

text \<open>
  Claim C1 as it is written, for an object identified by its name and namespace, fails
  when the object's labels change between two events. On a sink for the kind \<^verbatim>\<open>Pod\<close> with the
  reasons \<^verbatim>\<open>Starting\<close> and \<^verbatim>\<open>Creating\<close> and the extra label \<^verbatim>\<open>test_label\<close>, whose gauge vector
  is empty, the object \<^verbatim>\<open>testpod\<close> of the namespace \<^verbatim>\<open>testnamespace\<close> first sends
  \<^verbatim>\<open>Starting\<close> with the label value \<^verbatim>\<open>v1\<close> and then \<^verbatim>\<open>Creating\<close> with the label value \<^verbatim>\<open>v2\<close>.
  The second event deletes the series of \<^verbatim>\<open>Starting\<close> with the value \<^verbatim>\<open>v2\<close>, which is not
  there; the series of \<^verbatim>\<open>Starting\<close> with the value \<^verbatim>\<open>v1\<close> stays present beside the new
  series of \<^verbatim>\<open>Creating\<close>.
\<close>

theorem Send_stale_series:
  "\<exists>s' g'.
     SendAll gaugeVecImpl
       (exampleSink (NewGaugeVec
          \<lparr>opts_Name = ''event_exporter_pod_event_count'',
           opts_Help = ''Event counts for Pod resources.''\<rparr>
          [''name'', ''namespace'', ''reason'', ''label_test_label'']))
       [mockEvent ''Pod'' ''testpod'' ''testnamespace'' [''test_label'' \<mapsto> ''v1''] ''Starting'' 4,
        mockEvent ''Pod'' ''testpod'' ''testnamespace'' [''test_label'' \<mapsto> ''v2''] ''Creating'' 1]
       = Inr s' \<and>
     metricsByKind s' ''Pod'' = Some g' \<and>
     series g' [''name'' \<mapsto> ''testpod'', ''namespace'' \<mapsto> ''testnamespace'',
                ''reason'' \<mapsto> ''Starting'', ''label_test_label'' \<mapsto> ''v1''] = Some 4 \<and>
     series g' [''name'' \<mapsto> ''testpod'', ''namespace'' \<mapsto> ''testnamespace'',
                ''reason'' \<mapsto> ''Creating'', ''label_test_label'' \<mapsto> ''v2''] = Some 1"
proof -
  let ?g0 = "NewGaugeVec
          \<lparr>opts_Name = ''event_exporter_pod_event_count'',
           opts_Help = ''Event counts for Pod resources.''\<rparr>
          [''name'', ''namespace'', ''reason'', ''label_test_label'']"
  let ?s0 = "exampleSink ?g0"
  let ?ev1 = "mockEvent ''Pod'' ''testpod'' ''testnamespace'' [''test_label'' \<mapsto> ''v1''] ''Starting'' 4"
  let ?ev2 = "mockEvent ''Pod'' ''testpod'' ''testnamespace'' [''test_label'' \<mapsto> ''v2''] ''Creating'' 1"
  let ?ml = "defaultMetricLabels @ [''test_label'']"
  let ?E1 = "\<lambda>r. [''name'' \<mapsto> ''testpod'', ''namespace'' \<mapsto> ''testnamespace'',
                  ''reason'' \<mapsto> r, ''label_test_label'' \<mapsto> ''v1'']"
  let ?E2 = "\<lambda>r. [''name'' \<mapsto> ''testpod'', ''namespace'' \<mapsto> ''testnamespace'',
                  ''reason'' \<mapsto> r, ''label_test_label'' \<mapsto> ''v2'']"
  have k1: "Kind (InvolvedObject ?ev1) = ''Pod''" and k2: "Kind (InvolvedObject ?ev2) = ''Pod''"
    and r1: "Reason ?ev1 = ''Starting''" and r2: "Reason ?ev2 = ''Creating''"
    by (simp_all add: mockEvent_def)
  have c1: "float64 (Count ?ev1) = 4" and c2: "float64 (Count ?ev2) = 1"
    by (simp_all add: mockEvent_def float64_def)
  have L1: "getMetricLabels ?ml (InvolvedObject ?ev1) r = ?E1 r" for r
    by (simp add: mockEvent_def getMetricLabels_def getMetricLabelName_def defaultMetricLabels_def
        sanitizeLabelName_def ToLower_def toLowerByte_def char_defs decodeSize.simps
        indexString_def)
  have L2: "getMetricLabels ?ml (InvolvedObject ?ev2) r = ?E2 r" for r
    by (simp add: mockEvent_def getMetricLabels_def getMetricLabelName_def defaultMetricLabels_def
        sanitizeLabelName_def ToLower_def toLowerByte_def char_defs decodeSize.simps
        indexString_def)
  have ne: "?E1 r \<noteq> ?E2 r'" for r r'
  proof
    assume "?E1 r = ?E2 r'"
    then have "?E1 r ''label_test_label'' = ?E2 r' ''label_test_label''" by (rule fun_cong)
    then show False by simp
  qed
  have cfg0: "indexSlice (ReasonFilter (cfg ?s0)) ''Pod'' = [''Starting'', ''Creating'']"
    and ml0: "indexSlice (metricLabelsByKind ?s0) ''Pod'' = ?ml"
    and kinds0: "''Pod'' \<in> set (kinds ?s0)"
    and m0: "metricsByKind ?s0 ''Pod'' = Some ?g0"
    by (simp_all add: exampleSink_def exampleConfig_def indexSlice_def)
  from Send_gaugeVec_step [where s = ?s0 and ev = ?ev1 and g = ?g0]
  obtain s1 g1 where s1: "Send gaugeVecImpl ?s0 ?ev1 = Inr (None, s1)"
    and g1: "metricsByKind s1 ''Pod'' = Some g1"
    and same1: "cfg s1 = cfg ?s0" "kinds s1 = kinds ?s0"
      "metricLabelsByKind s1 = metricLabelsByKind ?s0"
    and set1: "\<forall>r \<in> set [''Starting'', ''Creating''].
        series g1 (?E1 r) = (if r = ''Starting'' then Some 4 else None)"
    unfolding k1 r1 c1 cfg0 ml0 L1 using kinds0 m0 by blast
  from set1 have v1: "series g1 (?E1 ''Starting'') = Some 4" by simp
  have cfg1: "indexSlice (ReasonFilter (cfg s1)) ''Pod'' = [''Starting'', ''Creating'']"
    and ml1: "indexSlice (metricLabelsByKind s1) ''Pod'' = ?ml"
    and kinds1: "''Pod'' \<in> set (kinds s1)"
    by (simp_all only: same1 cfg0 ml0 kinds0)
  from Send_gaugeVec_step [where s = s1 and ev = ?ev2 and g = g1]
  obtain s2 g2 where s2: "Send gaugeVecImpl s1 ?ev2 = Inr (None, s2)"
    and g2: "metricsByKind s2 ''Pod'' = Some g2"
    and set2: "\<forall>r \<in> set [''Starting'', ''Creating''].
        series g2 (?E2 r) = (if r = ''Creating'' then Some 1 else None)"
    and other2: "\<forall>labels. labels \<notin> ?E2 ` set [''Starting'', ''Creating''] \<longrightarrow>
        series g2 labels = series g1 labels"
    unfolding k2 r2 c2 cfg1 ml1 L2 using kinds1 g1 by blast
  have "?E1 ''Starting'' \<notin> ?E2 ` set [''Starting'', ''Creating'']"
    using ne [of "''Starting''"] by auto
  with other2 have "series g2 (?E1 ''Starting'') = series g1 (?E1 ''Starting'')" by blast
  with v1 have stale: "series g2 (?E1 ''Starting'') = Some 4" by simp
  from set2 have new: "series g2 (?E2 ''Creating'') = Some 1" by simp
  have "SendAll gaugeVecImpl ?s0 [?ev1, ?ev2] = Inr s2" by (simp add: s1 s2)
  with g2 stale new show ?thesis by blast
qed

text \<open>
  Claim C7. Sending an event twice in a row leaves the sink, and with it every gauge
  vector, as sending it once does; on a sink in which every listed kind has its gauge
  vector there is such a final state.
\<close>

theorem SendAll_twice:
  "SendAll gaugeVecImpl s [ev, ev] = SendAll gaugeVecImpl s [ev] \<and>
   (sinkInvariant s \<longrightarrow> (\<exists>s'. SendAll gaugeVecImpl s [ev] = Inr s'))"
proof
  show "SendAll gaugeVecImpl s [ev, ev] = SendAll gaugeVecImpl s [ev]"
  proof (cases "Send gaugeVecImpl s ev")
    case (Inl p)
    then show ?thesis by simp
  next
    case (Inr res)
    obtain err s1 where res: "res = (err, s1)" by (cases res)
    from Send_idem [OF Inr [unfolded res]] Inr res show ?thesis by simp
  qed
next
  show "sinkInvariant s \<longrightarrow> (\<exists>s'. SendAll gaugeVecImpl s [ev] = Inr s')"
    using SendAll_total [of s gaugeVecImpl "[ev]"] by blast
qed

theorem SendAll_twice_witness:
  "sinkInvariant (exampleSink exampleGaugeVec) \<and>
   SendAll gaugeVecImpl (exampleSink exampleGaugeVec) [testEvent, testEvent]
     = SendAll gaugeVecImpl (exampleSink exampleGaugeVec) [testEvent] \<and>
   (\<exists>s'. SendAll gaugeVecImpl (exampleSink exampleGaugeVec) [testEvent] = Inr s')"
  using SendAll_twice [where s = "exampleSink exampleGaugeVec" and ev = testEvent]
    exampleSink_invariant [of exampleGaugeVec]
  by blast

end
